theory Spec2Isabelle
  imports Main
begin

section \<open>Data model of \<open>pxr/imaging/hd/engine.cpp\<close>\<close>

text \<open>
  \<open>HdEngine\<close> owns one member, \<open>_taskContext\<close>, a
  \<open>std::unordered_map<TfToken, VtValue>\<close>. The map is modelled by the list of its
  entries, so that "two entries with the same key" is something a list can be and the
  operations have to avoid. The order of the list has no counterpart in the C++ map.

  A \<open>TfToken\<close> is its text. A \<open>VtValue\<close> is a type-erased holder; the model has the
  empty holder that \<open>VtValue()\<close> constructs, the driver vector the engine stores itself,
  and two further kinds for values stored by callers.
\<close>

type_synonym TfToken = string
type_synonym SdfPath = string
type_synonym HdDriverVector = "nat list"

datatype VtValue = VtEmpty | VtInt int | VtString string | VtDriverVector HdDriverVector

type_synonym HdTaskContext = "(TfToken \<times> VtValue) list"

text \<open>
  Handles. A pointer that the source tests against \<open>nullptr\<close> is an \<open>option\<close>, with
  \<open>None\<close> for the null pointer. \<open>HdTask\<close> is the task object behind a non-null
  \<open>HdTaskSharedPtr\<close>: the engine's loops call through every entry of the task vector
  without a test, so an entry of the vector is a task. Only \<open>GetTask\<close> yields a shared
  pointer that the source tests, and its result is an \<open>option\<close>.
\<close>

type_synonym HdRenderIndex = nat
type_synonym HdRenderDelegate = nat
type_synonym HdChangeTracker = nat
type_synonym HdTask = nat
type_synonym HdTaskSharedPtrVector = "HdTask list"

text \<open>
  The token \<open>HdTokens->drivers\<close> is declared in \<open>tokens.h\<close>; its text is \<open>drivers\<close>.
\<close>

definition HdTokens_drivers :: TfToken where
  "HdTokens_drivers = ''drivers''"

text \<open>\<open>SdfPath::IsEmpty\<close>: the empty path is the path with no text.\<close>

definition IsEmpty :: "SdfPath \<Rightarrow> bool" where
  "IsEmpty p = (p = [])"

subsection \<open>What the engine does that an observer can see\<close>

text \<open>
  Every diagnostic the engine posts, every call it makes into a collaborator and every
  read it makes of the caller's task vector is appended to a trace, in the order of the
  statements of the source.
\<close>

datatype event =
    CodingError string
  | VerifyFailed string
  | GetTaskCall HdRenderIndex SdfPath
  | SyncAllCall HdRenderIndex HdTaskSharedPtrVector HdTaskContext
  | SizeRead nat
  | ElementRead nat
  | PrepareCall HdTask HdRenderIndex
  | CommitResourcesCall HdRenderDelegate HdChangeTracker
  | ExecuteCall HdTask

text \<open>
  The state threaded through the engine: its own member, the trace, and the state of
  everything outside the engine (scene index, render delegate, tasks), which the
  engine never inspects.
\<close>

record 'w state =
  taskContext :: HdTaskContext
  trace :: "event list"
  world :: 'w

text \<open>
  The collaborators, none of which is defined in \<open>engine.cpp\<close>. Each is a parameter
  that may change exactly what the engine hands to it by non-const pointer, and the
  outside world: \<open>SyncAll\<close> receives the task vector and the task context,
  \<open>HdTask::Prepare\<close> and \<open>HdTask::Execute\<close> receive the task context,
  \<open>CommitResources\<close> receives neither. The getters are \<open>const\<close>.
\<close>

record 'w collaborators =
  GetDrivers :: "HdRenderIndex \<Rightarrow> 'w \<Rightarrow> HdDriverVector"
  SyncAll :: "HdRenderIndex \<Rightarrow> HdTaskSharedPtrVector \<Rightarrow> HdTaskContext \<Rightarrow> 'w
                \<Rightarrow> HdTaskSharedPtrVector \<times> HdTaskContext \<times> 'w"
  Task_Prepare :: "HdTask \<Rightarrow> HdTaskContext \<Rightarrow> HdRenderIndex \<Rightarrow> 'w \<Rightarrow> HdTaskContext \<times> 'w"
  GetRenderDelegate :: "HdRenderIndex \<Rightarrow> 'w \<Rightarrow> HdRenderDelegate"
  GetChangeTracker :: "HdRenderIndex \<Rightarrow> 'w \<Rightarrow> HdChangeTracker"
  CommitResources :: "HdRenderDelegate \<Rightarrow> HdChangeTracker \<Rightarrow> 'w \<Rightarrow> 'w"
  Task_Execute :: "HdTask \<Rightarrow> HdTaskContext \<Rightarrow> 'w \<Rightarrow> HdTaskContext \<times> 'w"
  GetTask :: "HdRenderIndex \<Rightarrow> SdfPath \<Rightarrow> 'w \<Rightarrow> HdTask option"

text \<open>
  Undefined behaviour of the C++ is a value: calling through a null pointer, and
  indexing a vector past its end.
\<close>

datatype fault = NullDereference | OutOfRange

definition emit :: "event \<Rightarrow> 'w state \<Rightarrow> 'w state" where
  "emit e s = s\<lparr>trace := trace s @ [e]\<rparr>"

definition TF_CODING_ERROR :: "string \<Rightarrow> 'w state \<Rightarrow> 'w state" where
  "TF_CODING_ERROR msg s = emit (CodingError msg) s"

section \<open>The operations of \<open>std::unordered_map\<close> that the engine uses\<close>

text \<open>\<open>find\<close>: the value of the entry with the key, if there is one.\<close>

fun umap_find :: "TfToken \<Rightarrow> HdTaskContext \<Rightarrow> VtValue option" where
  "umap_find k [] = None"
| "umap_find k ((k', v) # m) = (if k' = k then Some v else umap_find k m)"

text \<open>Assignment through an iterator or reference to the entry with the key.\<close>

fun umap_assign :: "TfToken \<Rightarrow> VtValue \<Rightarrow> HdTaskContext \<Rightarrow> HdTaskContext" where
  "umap_assign k v [] = []"
| "umap_assign k v ((k', v') # m) =
     (if k' = k then (k', v) # m else (k', v') # umap_assign k v m)"

text \<open>
  \<open>emplace\<close>: inserts only if no entry has the key; the boolean tells whether it
  inserted. The iterator it returns points at the entry with the key in either case.
\<close>

definition emplace :: "TfToken \<Rightarrow> VtValue \<Rightarrow> HdTaskContext \<Rightarrow> HdTaskContext \<times> bool" where
  "emplace k v m =
     (case umap_find k m of
        Some _ \<Rightarrow> (m, False)
      | None \<Rightarrow> (m @ [(k, v)], True))"

text \<open>\<open>erase(key)\<close> removes the entries with the key.\<close>

definition erase :: "TfToken \<Rightarrow> HdTaskContext \<Rightarrow> HdTaskContext" where
  "erase k m = filter (\<lambda>e. fst e \<noteq> k) m"

definition clear :: "HdTaskContext \<Rightarrow> HdTaskContext" where
  "clear m = []"

text \<open>
  \<open>operator[]\<close>: inserts a default-constructed value if no entry has the key, and
  refers to the entry with the key.
\<close>

definition subscript :: "TfToken \<Rightarrow> HdTaskContext \<Rightarrow> HdTaskContext" where
  "subscript k m =
     (case umap_find k m of
        Some _ \<Rightarrow> m
      | None \<Rightarrow> m @ [(k, VtEmpty)])"

text \<open>The statement \<open>m[k] = v\<close>.\<close>

definition subscript_assign :: "TfToken \<Rightarrow> VtValue \<Rightarrow> HdTaskContext \<Rightarrow> HdTaskContext" where
  "subscript_assign k v m = umap_assign k v (subscript k m)"

text \<open>The keys of the entries, one per entry.\<close>

definition keys :: "HdTaskContext \<Rightarrow> TfToken list" where
  "keys m = map fst m"

text \<open>The invariant of a map: no two entries have the same key.\<close>

definition unique_keys :: "HdTaskContext \<Rightarrow> bool" where
  "unique_keys m = distinct (keys m)"

section \<open>The task context accessors\<close>

text \<open>\<open>HdEngine::HdEngine()\<close>: an empty task context.\<close>

definition HdEngine :: "'w \<Rightarrow> 'w state" where
  "HdEngine w = \<lparr>taskContext = [], trace = [], world = w\<rparr>"

definition SetTaskContextData :: "TfToken \<Rightarrow> VtValue \<Rightarrow> 'w state \<Rightarrow> 'w state" where
  "SetTaskContextData id' data s =
     (let result = emplace id' data (taskContext s)
      in if \<not> snd result
         then s\<lparr>taskContext := umap_assign id' data (fst result)\<rparr>
         else s\<lparr>taskContext := fst result\<rparr>)"

text \<open>
  \<open>GetTaskContextData(id, data)\<close>: \<open>data\<close> is an out-pointer, \<open>None\<close> when null and
  otherwise the value it points at. The result is the returned boolean, the value
  behind \<open>data\<close> afterwards, and the state (only a failed \<open>TF_VERIFY\<close> adds to its trace).
\<close>

definition GetTaskContextData ::
  "TfToken \<Rightarrow> VtValue option \<Rightarrow> 'w state \<Rightarrow> bool \<times> VtValue option \<times> 'w state" where
  "GetTaskContextData id' data s =
     (case data of
        None \<Rightarrow> (False, None, emit (VerifyFailed ''data'') s)
      | Some old \<Rightarrow>
          (case umap_find id' (taskContext s) of
             Some v \<Rightarrow> (True, Some v, s)
           | None \<Rightarrow> (False, Some old, s)))"

definition RemoveTaskContextData :: "TfToken \<Rightarrow> 'w state \<Rightarrow> 'w state" where
  "RemoveTaskContextData id' s = s\<lparr>taskContext := erase id' (taskContext s)\<rparr>"

definition ClearTaskContextData :: "'w state \<Rightarrow> 'w state" where
  "ClearTaskContextData s = s\<lparr>taskContext := clear (taskContext s)\<rparr>"

section \<open>\<open>HdEngine::Execute(HdRenderIndex *, HdTaskSharedPtrVector *)\<close>\<close>

text \<open>
  Line 88, \<open>_taskContext[HdTokens->drivers] = VtValue(index->GetDrivers())\<close>.
\<close>

definition seed_drivers :: "'w collaborators \<Rightarrow> HdRenderIndex \<Rightarrow> 'w state \<Rightarrow> 'w state" where
  "seed_drivers env index s =
     s\<lparr>taskContext :=
         subscript_assign HdTokens_drivers (VtDriverVector (GetDrivers env index (world s)))
           (taskContext s)\<rparr>"

text \<open>
  Line 107, \<open>index->SyncAll(tasks, &_taskContext)\<close>: the result is the task vector
  as \<open>SyncAll\<close> leaves it, and the state.
\<close>

definition sync_phase ::
  "'w collaborators \<Rightarrow> HdRenderIndex \<Rightarrow> HdTaskSharedPtrVector \<Rightarrow> 'w state
     \<Rightarrow> HdTaskSharedPtrVector \<times> 'w state" where
  "sync_phase env index tasks s =
     (let s1 = emit (SyncAllCall index tasks (taskContext s)) s;
          r = SyncAll env index tasks (taskContext s1) (world s1)
      in (fst r, s1\<lparr>taskContext := fst (snd r), world := snd (snd r)\<rparr>))"

text \<open>Line 135, \<open>task->Prepare(&_taskContext, index)\<close>.\<close>

definition prepare_task :: "'w collaborators \<Rightarrow> HdRenderIndex \<Rightarrow> HdTask \<Rightarrow> 'w state \<Rightarrow> 'w state" where
  "prepare_task env index task s =
     (let s1 = emit (PrepareCall task index) s;
          r = Task_Prepare env task (taskContext s1) index (world s1)
      in s1\<lparr>taskContext := fst r, world := snd r\<rparr>)"

definition prepare_round ::
  "'w collaborators \<Rightarrow> HdRenderIndex \<Rightarrow> HdTaskSharedPtrVector \<Rightarrow> 'w state \<Rightarrow> nat \<Rightarrow> 'w state" where
  "prepare_round env index tasks s taskNum =
     prepare_task env index (tasks ! taskNum) (emit (ElementRead taskNum) s)"

text \<open>
  The loop of lines 132 to 136. \<open>numTasks\<close> was read before the loop; the bounds of the
  vector are tested here because \<open>(*tasks)[taskNum]\<close> past the end has no defined result.
\<close>

function prepare_loop ::
  "'w collaborators \<Rightarrow> HdRenderIndex \<Rightarrow> HdTaskSharedPtrVector \<Rightarrow> nat \<Rightarrow> nat \<Rightarrow> 'w state
     \<Rightarrow> fault + 'w state" where
  "prepare_loop env index tasks numTasks taskNum s =
     (if taskNum < numTasks
      then (if taskNum < length tasks
            then prepare_loop env index tasks numTasks (Suc taskNum)
                   (prepare_round env index tasks s taskNum)
            else Inl OutOfRange)
      else Inr s)"
  by pat_completeness auto
termination
  by (relation "measure (\<lambda>(env, index, tasks, numTasks, taskNum, s). numTasks - taskNum)") auto

text \<open>
  Lines 151 and 152. The source calls through the pointer that \<open>GetRenderDelegate\<close>
  returns without a test; a render index has a render delegate.
\<close>

definition commit_phase :: "'w collaborators \<Rightarrow> HdRenderIndex \<Rightarrow> 'w state \<Rightarrow> 'w state" where
  "commit_phase env index s =
     (let renderDelegate = GetRenderDelegate env index (world s);
          tracker = GetChangeTracker env index (world s);
          s1 = emit (CommitResourcesCall renderDelegate tracker) s
      in s1\<lparr>world := CommitResources env renderDelegate tracker (world s1)\<rparr>)"

text \<open>Line 170, \<open>task->Execute(&_taskContext)\<close>.\<close>

definition execute_task :: "'w collaborators \<Rightarrow> HdTask \<Rightarrow> 'w state \<Rightarrow> 'w state" where
  "execute_task env task s =
     (let s1 = emit (ExecuteCall task) s;
          r = Task_Execute env task (taskContext s1) (world s1)
      in s1\<lparr>taskContext := fst r, world := snd r\<rparr>)"

definition execute_round ::
  "'w collaborators \<Rightarrow> HdTaskSharedPtrVector \<Rightarrow> 'w state \<Rightarrow> nat \<Rightarrow> 'w state" where
  "execute_round env tasks s taskNum =
     execute_task env (tasks ! taskNum) (emit (ElementRead taskNum) s)"

text \<open>The loop of lines 167 to 171, with the same bounds test.\<close>

function execute_loop ::
  "'w collaborators \<Rightarrow> HdTaskSharedPtrVector \<Rightarrow> nat \<Rightarrow> nat \<Rightarrow> 'w state \<Rightarrow> fault + 'w state" where
  "execute_loop env tasks numTasks taskNum s =
     (if taskNum < numTasks
      then (if taskNum < length tasks
            then execute_loop env tasks numTasks (Suc taskNum)
                   (execute_round env tasks s taskNum)
            else Inl OutOfRange)
      else Inr s)"
  by pat_completeness auto
termination
  by (relation "measure (\<lambda>(env, tasks, numTasks, taskNum, s). numTasks - taskNum)") auto

text \<open>
  The primary \<open>Execute\<close>. \<open>tasks\<close> points at a vector of the caller; the result holds
  the contents of that vector when the call returns, and the state. The tracing macros
  and the \<open>TF_DEBUG\<close> messages of the source have no part in the model.
\<close>

definition Execute ::
  "'w collaborators \<Rightarrow> HdRenderIndex option \<Rightarrow> HdTaskSharedPtrVector option \<Rightarrow> 'w state
     \<Rightarrow> fault + (HdTaskSharedPtrVector option \<times> 'w state)" where
  "Execute env index tasks s =
     (case index of
        None \<Rightarrow> Inr (tasks, TF_CODING_ERROR ''Passed nullptr to HdEngine::Execute()'' s)
      | Some idx \<Rightarrow>
     (case tasks of
        None \<Rightarrow> Inr (tasks, TF_CODING_ERROR ''Passed nullptr to HdEngine::Execute()'' s)
      | Some vec \<Rightarrow>
          (let s1 = seed_drivers env idx s;
               synced = sync_phase env idx vec s1;
               vec' = fst synced;
               numTasks = length vec';
               s2 = emit (SizeRead numTasks) (snd synced)
           in case prepare_loop env idx vec' numTasks 0 s2 of
                Inl f \<Rightarrow> Inl f
              | Inr s3 \<Rightarrow>
                  (case execute_loop env vec' numTasks 0 (commit_phase env idx s3) of
                     Inl f \<Rightarrow> Inl f
                   | Inr s4 \<Rightarrow> Inr (Some vec', s4)))))"

section \<open>\<open>HdEngine::Execute(HdRenderIndex *, const SdfPathVector &)\<close>\<close>

text \<open>
  The loop of lines 181 to 195 over the paths, building the local vector \<open>tasks\<close>.
  \<open>index->GetTask\<close> is a call through \<open>index\<close>, which the overload has not tested.
\<close>

fun resolve_paths ::
  "'w collaborators \<Rightarrow> HdRenderIndex option \<Rightarrow> SdfPath list \<Rightarrow> HdTaskSharedPtrVector \<Rightarrow> 'w state
     \<Rightarrow> fault + (HdTaskSharedPtrVector \<times> 'w state)" where
  "resolve_paths env index [] tasks s = Inr (tasks, s)"
| "resolve_paths env index (taskPath # rest) tasks s =
     (if IsEmpty taskPath
      then resolve_paths env index rest tasks
             (TF_CODING_ERROR ''Empty task path given to HdEngine::Execute()'' s)
      else (case index of
              None \<Rightarrow> Inl NullDereference
            | Some idx \<Rightarrow>
                (let s1 = emit (GetTaskCall idx taskPath) s
                 in case GetTask env idx taskPath (world s1) of
                      None \<Rightarrow>
                        resolve_paths env index rest tasks
                          (TF_CODING_ERROR
                             (''No task at '' @ taskPath @ '' in render index in HdEngine::Execute()'')
                             s1)
                    | Some task \<Rightarrow> resolve_paths env index rest (tasks @ [task]) s1)))"

text \<open>
  The vector is a local of the overload and is gone when it returns, so the result is
  the state alone.
\<close>

definition Execute_paths ::
  "'w collaborators \<Rightarrow> HdRenderIndex option \<Rightarrow> SdfPath list \<Rightarrow> 'w state \<Rightarrow> fault + 'w state" where
  "Execute_paths env index taskPaths s =
     (case resolve_paths env index taskPaths [] s of
        Inl f \<Rightarrow> Inl f
      | Inr (tasks, s1) \<Rightarrow>
          (case Execute env index (Some tasks) s1 of
             Inl f \<Rightarrow> Inl f
           | Inr (_, s2) \<Rightarrow> Inr s2))"

section \<open>Reading the trace\<close>

text \<open>The events that a call added to the trace.\<close>

definition new_events :: "'w state \<Rightarrow> 'w state \<Rightarrow> event list" where
  "new_events s s' = drop (length (trace s)) (trace s')"

text \<open>The four phase calls, and the projections of a trace onto one kind of event.\<close>

fun is_phase_call :: "event \<Rightarrow> bool" where
  "is_phase_call (SyncAllCall index tasks ctx) = True"
| "is_phase_call (PrepareCall task index) = True"
| "is_phase_call (CommitResourcesCall renderDelegate tracker) = True"
| "is_phase_call (ExecuteCall task) = True"
| "is_phase_call _ = False"

definition phase_calls :: "event list \<Rightarrow> event list" where
  "phase_calls evs = filter is_phase_call evs"

definition prepared :: "event list \<Rightarrow> HdTask list" where
  "prepared evs = concat (map (\<lambda>e. case e of PrepareCall task index \<Rightarrow> [task] | _ \<Rightarrow> []) evs)"

definition executed :: "event list \<Rightarrow> HdTask list" where
  "executed evs = concat (map (\<lambda>e. case e of ExecuteCall task \<Rightarrow> [task] | _ \<Rightarrow> []) evs)"

definition element_reads :: "event list \<Rightarrow> nat list" where
  "element_reads evs = concat (map (\<lambda>e. case e of ElementRead i \<Rightarrow> [i] | _ \<Rightarrow> []) evs)"

definition size_reads :: "event list \<Rightarrow> nat list" where
  "size_reads evs = concat (map (\<lambda>e. case e of SizeRead n \<Rightarrow> [n] | _ \<Rightarrow> []) evs)"

definition coding_errors :: "event list \<Rightarrow> string list" where
  "coding_errors evs = concat (map (\<lambda>e. case e of CodingError msg \<Rightarrow> [msg] | _ \<Rightarrow> []) evs)"

definition get_task_calls :: "event list \<Rightarrow> SdfPath list" where
  "get_task_calls evs = concat (map (\<lambda>e. case e of GetTaskCall index p \<Rightarrow> [p] | _ \<Rightarrow> []) evs)"

text \<open>
  The task context that \<open>SyncAll\<close> is handed in a call of the primary \<open>Execute\<close>, and the
  task vector as \<open>SyncAll\<close> leaves it.
\<close>

definition seeded_context :: "'w collaborators \<Rightarrow> HdRenderIndex \<Rightarrow> 'w state \<Rightarrow> HdTaskContext" where
  "seeded_context env index s = taskContext (seed_drivers env index s)"

definition tasks_after_sync ::
  "'w collaborators \<Rightarrow> HdRenderIndex \<Rightarrow> HdTaskSharedPtrVector \<Rightarrow> 'w state \<Rightarrow> HdTaskSharedPtrVector" where
  "tasks_after_sync env index tasks s =
     fst (SyncAll env index tasks (seeded_context env index s) (world s))"

text \<open>
  The states that a call of the primary \<open>Execute\<close> with non-null arguments passes
  through: after \<open>SyncAll\<close> and the read of the size, after the Prepare loop, after
  \<open>CommitResources\<close>, and after the Execute loop.
\<close>

definition synced_state ::
  "'w collaborators \<Rightarrow> HdRenderIndex \<Rightarrow> HdTaskSharedPtrVector \<Rightarrow> 'w state \<Rightarrow> 'w state" where
  "synced_state env index tasks s =
     emit (SizeRead (length (tasks_after_sync env index tasks s)))
       (snd (sync_phase env index tasks (seed_drivers env index s)))"

definition prepared_state ::
  "'w collaborators \<Rightarrow> HdRenderIndex \<Rightarrow> HdTaskSharedPtrVector \<Rightarrow> 'w state \<Rightarrow> 'w state" where
  "prepared_state env index tasks s =
     foldl (prepare_round env index (tasks_after_sync env index tasks s))
       (synced_state env index tasks s)
       [0..<length (tasks_after_sync env index tasks s)]"

definition committed_state ::
  "'w collaborators \<Rightarrow> HdRenderIndex \<Rightarrow> HdTaskSharedPtrVector \<Rightarrow> 'w state \<Rightarrow> 'w state" where
  "committed_state env index tasks s = commit_phase env index (prepared_state env index tasks s)"

definition executed_state ::
  "'w collaborators \<Rightarrow> HdRenderIndex \<Rightarrow> HdTaskSharedPtrVector \<Rightarrow> 'w state \<Rightarrow> 'w state" where
  "executed_state env index tasks s =
     foldl (execute_round env (tasks_after_sync env index tasks s))
       (committed_state env index tasks s)
       [0..<length (tasks_after_sync env index tasks s)]"

text \<open>The \<open>CommitResources\<close> call of such a call of \<open>Execute\<close>.\<close>

definition commit_call ::
  "'w collaborators \<Rightarrow> HdRenderIndex \<Rightarrow> HdTaskSharedPtrVector \<Rightarrow> 'w state \<Rightarrow> event" where
  "commit_call env index tasks s =
     CommitResourcesCall
       (GetRenderDelegate env index (world (prepared_state env index tasks s)))
       (GetChangeTracker env index (world (prepared_state env index tasks s)))"

text \<open>The events of the Prepare loop and of the Execute loop over a vector.\<close>

definition prepare_events :: "HdRenderIndex \<Rightarrow> HdTaskSharedPtrVector \<Rightarrow> event list" where
  "prepare_events index tasks =
     concat (map (\<lambda>i. [ElementRead i, PrepareCall (tasks ! i) index]) [0..<length tasks])"

definition execute_events :: "HdTaskSharedPtrVector \<Rightarrow> event list" where
  "execute_events tasks =
     concat (map (\<lambda>i. [ElementRead i, ExecuteCall (tasks ! i)]) [0..<length tasks])"




text \<open>The number of entries of a task context under a key.\<close>

definition count_key :: "TfToken \<Rightarrow> HdTaskContext \<Rightarrow> nat" where
  "count_key k m = length (filter (\<lambda>e. fst e = k) m)"

text \<open>The value under the drivers key once a call of \<open>Execute\<close> has returned.\<close>

definition drivers_after ::
  "fault + (HdTaskSharedPtrVector option \<times> 'w state) \<Rightarrow> fault + VtValue option" where
  "drivers_after r =
     (case r of
        Inl f \<Rightarrow> Inl f
      | Inr res \<Rightarrow> Inr (umap_find HdTokens_drivers (taskContext (snd res))))"

text \<open>
  Collaborators that leave the entry under a key of the task context as they found it.
\<close>

definition leaves_key :: "'w collaborators \<Rightarrow> TfToken \<Rightarrow> bool" where
  "leaves_key env k \<longleftrightarrow>
     (\<forall>index tasks ctx w. umap_find k (fst (snd (SyncAll env index tasks ctx w))) = umap_find k ctx) \<and>
     (\<forall>task ctx index w. umap_find k (fst (Task_Prepare env task ctx index w)) = umap_find k ctx) \<and>
     (\<forall>task ctx w. umap_find k (fst (Task_Execute env task ctx w)) = umap_find k ctx)"

subsection \<open>Sequences of accessor calls\<close>

datatype accessor =
    CallSet TfToken VtValue
  | CallGet TfToken "VtValue option"
  | CallRemove TfToken
  | CallClear

fun call :: "'w state \<Rightarrow> accessor \<Rightarrow> 'w state" where
  "call s (CallSet k v) = SetTaskContextData k v s"
| "call s (CallGet k data) = snd (snd (GetTaskContextData k data s))"
| "call s (CallRemove k) = RemoveTaskContextData k s"
| "call s CallClear = ClearTaskContextData s"

definition run_accessors :: "accessor list \<Rightarrow> 'w state \<Rightarrow> 'w state" where
  "run_accessors calls s = foldl call s calls"

fun sets_key :: "TfToken \<Rightarrow> accessor \<Rightarrow> bool" where
  "sets_key k (CallSet k' v) = (k' = k)"
| "sets_key k _ = False"

subsection \<open>The paths that resolve\<close>

text \<open>
  What the description of the path overload says of one path: it resolves when it is
  not empty and the scene index has a task for it; otherwise one usage error is
  reported for it.
\<close>

definition resolves :: "'w collaborators \<Rightarrow> HdRenderIndex \<Rightarrow> 'w \<Rightarrow> SdfPath \<Rightarrow> bool" where
  "resolves env index w p \<longleftrightarrow> \<not> IsEmpty p \<and> GetTask env index p w \<noteq> None"

definition resolved_tasks ::
  "'w collaborators \<Rightarrow> HdRenderIndex \<Rightarrow> 'w \<Rightarrow> SdfPath list \<Rightarrow> HdTaskSharedPtrVector" where
  "resolved_tasks env index w ps =
     map (\<lambda>p. the (GetTask env index p w)) (filter (resolves env index w) ps)"

definition path_error :: "SdfPath \<Rightarrow> string" where
  "path_error p =
     (if IsEmpty p then ''Empty task path given to HdEngine::Execute()''
      else ''No task at '' @ p @ '' in render index in HdEngine::Execute()'')"

definition path_errors :: "'w collaborators \<Rightarrow> HdRenderIndex \<Rightarrow> 'w \<Rightarrow> SdfPath list \<Rightarrow> string list" where
  "path_errors env index w ps = map path_error (filter (\<lambda>p. \<not> resolves env index w p) ps)"

text \<open>The events of the loop over the paths, for a non-null index.\<close>

definition resolve_events :: "'w collaborators \<Rightarrow> HdRenderIndex \<Rightarrow> 'w \<Rightarrow> SdfPath list \<Rightarrow> event list" where
  "resolve_events env index w ps =
     concat (map (\<lambda>p. if IsEmpty p then [CodingError (path_error p)]
                        else if GetTask env index p w = None
                             then [GetTaskCall index p, CodingError (path_error p)]
                             else [GetTaskCall index p]) ps)"

subsection \<open>Collaborators to run the engine with\<close>

text \<open>
  A scene index with the tasks 1 at \<open>/A\<close> and 2 at \<open>/B\<close> and one driver. The world is
  the list of the tasks' own records: a task adds its number when prepared and its
  number plus 100 when executed, and \<open>CommitResources\<close> adds 1000. Each task also writes
  a value of its own to the task context in \<open>Prepare\<close>.
\<close>

definition recording :: "nat list collaborators" where
  "recording =
     \<lparr>GetDrivers = (\<lambda>index w. [42]),
      SyncAll = (\<lambda>index tasks ctx w. (tasks, ctx, w)),
      Task_Prepare = (\<lambda>task ctx index w. (subscript_assign ''last'' (VtInt (int task)) ctx, w @ [task])),
      GetRenderDelegate = (\<lambda>index w. 5),
      GetChangeTracker = (\<lambda>index w. 6),
      CommitResources = (\<lambda>renderDelegate tracker w. w @ [1000]),
      Task_Execute = (\<lambda>task ctx w. (ctx, w @ [task + 100])),
      GetTask = (\<lambda>index p w. if p = ''/A'' then Some 1 else if p = ''/B'' then Some 2 else None)\<rparr>"

text \<open>The same, with tasks whose \<open>Prepare\<close> erases the drivers entry.\<close>

definition erasing :: "nat list collaborators" where
  "erasing = recording\<lparr>Task_Prepare := (\<lambda>task ctx index w. (erase HdTokens_drivers ctx, w @ [task]))\<rparr>"

text \<open>The same, with a \<open>SyncAll\<close> that drops the last task of the vector.\<close>

definition shrinking :: "nat list collaborators" where
  "shrinking = recording\<lparr>SyncAll := (\<lambda>index tasks ctx w. (butlast tasks, ctx, w))\<rparr>"



section \<open>Lemmas on the task context\<close>

lemma keys_simps:
  "keys [] = []" "keys ((k, v) # m) = k # keys m" "keys (m @ m') = keys m @ keys m'"
  by (simp_all add: keys_def)

lemma umap_find_None_iff: "umap_find k m = None \<longleftrightarrow> k \<notin> set (keys m)"
  by (induction m rule: umap_find.induct) (simp_all add: keys_simps)

lemma umap_find_append:
  "umap_find k (m @ m') = (case umap_find k m of Some v \<Rightarrow> Some v | None \<Rightarrow> umap_find k m')"
  by (induction m rule: umap_find.induct) simp_all

lemma umap_assign_append:
  "umap_assign k v (m @ m') =
     (if k \<in> set (keys m) then umap_assign k v m @ m' else m @ umap_assign k v m')"
  by (induction k v m rule: umap_assign.induct) (simp_all add: keys_simps)

lemma keys_umap_assign: "keys (umap_assign k v m) = keys m"
  by (induction k v m rule: umap_assign.induct) (simp_all add: keys_simps)

lemma umap_find_assign:
  "umap_find k' (umap_assign k v m) =
     (if k' = k \<and> k \<in> set (keys m) then Some v else umap_find k' m)"
  by (induction k v m rule: umap_assign.induct) (auto simp: keys_simps)

lemma umap_find_erase:
  "umap_find k' (erase k m) = (if k' = k then None else umap_find k' m)"
  by (induction m) (auto simp: erase_def)

lemma keys_erase: "keys (erase k m) = filter (\<lambda>k'. k' \<noteq> k) (keys m)"
  by (simp add: erase_def keys_def filter_map comp_def)

lemma subscript_assign_eq:
  "subscript_assign k v m =
     (if k \<in> set (keys m) then umap_assign k v m else m @ [(k, v)])"
proof (cases "umap_find k m")
  case None
  then have "k \<notin> set (keys m)" by (simp add: umap_find_None_iff)
  with None show ?thesis
    by (simp add: subscript_assign_def subscript_def umap_assign_append keys_simps)
next
  case (Some a)
  then have "k \<in> set (keys m)" using umap_find_None_iff [of k m] by simp
  with Some show ?thesis by (simp add: subscript_assign_def subscript_def)
qed

lemma umap_find_subscript_assign:
  "umap_find k' (subscript_assign k v m) = (if k' = k then Some v else umap_find k' m)"
proof (cases "k \<in> set (keys m)")
  case True
  then show ?thesis by (simp add: subscript_assign_eq umap_find_assign)
next
  case False
  then have "umap_find k m = None" by (simp add: umap_find_None_iff)
  with False show ?thesis
    by (simp add: subscript_assign_eq umap_find_append split: option.split)
qed

lemma keys_subscript_assign:
  "keys (subscript_assign k v m) = (if k \<in> set (keys m) then keys m else keys m @ [k])"
  by (simp add: subscript_assign_eq keys_umap_assign keys_simps)

lemma taskContext_Set:
  "taskContext (SetTaskContextData k v s) = subscript_assign k v (taskContext s)"
proof (cases "umap_find k (taskContext s)")
  case None
  then have "k \<notin> set (keys (taskContext s))" by (simp add: umap_find_None_iff)
  with None show ?thesis by (simp add: SetTaskContextData_def emplace_def subscript_assign_eq)
next
  case (Some a)
  then have "k \<in> set (keys (taskContext s))"
    using umap_find_None_iff [of k "taskContext s"] by simp
  with Some show ?thesis by (simp add: SetTaskContextData_def emplace_def subscript_assign_eq)
qed

lemma trace_Set: "trace (SetTaskContextData k v s) = trace s"
  by (simp add: SetTaskContextData_def Let_def)

lemma world_Set: "world (SetTaskContextData k v s) = world s"
  by (simp add: SetTaskContextData_def Let_def)

lemma unique_keys_subscript_assign: "unique_keys m \<Longrightarrow> unique_keys (subscript_assign k v m)"
  by (simp add: unique_keys_def keys_subscript_assign)

lemma unique_keys_erase: "unique_keys m \<Longrightarrow> unique_keys (erase k m)"
  by (simp add: unique_keys_def keys_erase)

lemma count_key_unique:
  "unique_keys m \<Longrightarrow> count_key k m = (if k \<in> set (keys m) then 1 else 0)"
  by (induction m) (auto simp: unique_keys_def count_key_def keys_def)

lemma taskContext_Get: "taskContext (snd (snd (GetTaskContextData k data s))) = taskContext s"
  by (simp add: GetTaskContextData_def emit_def split: option.split)

lemma GetTaskContextData_eq:
  "GetTaskContextData k (Some old) s =
     (case umap_find k (taskContext s) of
        Some v \<Rightarrow> (True, Some v, s)
      | None \<Rightarrow> (False, Some old, s))"
  by (simp add: GetTaskContextData_def)

lemma call_keeps_absent:
  "umap_find k (taskContext s) = None \<Longrightarrow> \<not> sets_key k a \<Longrightarrow>
   umap_find k (taskContext (call s a)) = None"
  by (cases a)
     (simp_all add: taskContext_Set umap_find_subscript_assign taskContext_Get
        RemoveTaskContextData_def umap_find_erase ClearTaskContextData_def clear_def)

lemma run_keeps_absent:
  "umap_find k (taskContext s) = None \<Longrightarrow> \<forall>a\<in>set calls. \<not> sets_key k a \<Longrightarrow>
   umap_find k (taskContext (run_accessors calls s)) = None"
  unfolding run_accessors_def
  by (induction calls arbitrary: s) (simp_all add: call_keeps_absent)

lemma unique_keys_Nil: "unique_keys []"
  by (simp add: unique_keys_def keys_def)

lemma call_unique_keys: "unique_keys (taskContext s) \<Longrightarrow> unique_keys (taskContext (call s a))"
  by (cases a)
     (simp_all add: taskContext_Set unique_keys_subscript_assign taskContext_Get
        RemoveTaskContextData_def unique_keys_erase ClearTaskContextData_def clear_def
        unique_keys_Nil)

lemma run_unique_keys:
  "unique_keys (taskContext s) \<Longrightarrow> unique_keys (taskContext (run_accessors calls s))"
  unfolding run_accessors_def
  by (induction calls arbitrary: s) (simp_all add: call_unique_keys)

section \<open>Lemmas on the loops and the trace\<close>

declare prepare_loop.simps [simp del] execute_loop.simps [simp del]

lemma prepare_loop_foldl:
  "numTasks \<le> length tasks \<Longrightarrow>
   prepare_loop env index tasks numTasks taskNum s =
     Inr (foldl (prepare_round env index tasks) s [taskNum..<numTasks])"
proof (induction env index tasks numTasks taskNum s rule: prepare_loop.induct)
  case (1 env index tasks numTasks taskNum s)
  show ?case
  proof (cases "taskNum < numTasks")
    case True
    with "1.prems" have inrange: "taskNum < length tasks" by simp
    from True have upt: "[taskNum..<numTasks] = taskNum # [Suc taskNum..<numTasks]"
      by (simp add: upt_rec)
    have "prepare_loop env index tasks numTasks taskNum s =
            prepare_loop env index tasks numTasks (Suc taskNum) (prepare_round env index tasks s taskNum)"
      using True inrange by (subst prepare_loop.simps) simp
    also have "\<dots> = Inr (foldl (prepare_round env index tasks) (prepare_round env index tasks s taskNum)
                           [Suc taskNum..<numTasks])"
      by (rule "1.IH" [OF True inrange "1.prems"])
    finally show ?thesis by (simp add: upt)
  next
    case False
    then show ?thesis by (subst prepare_loop.simps) simp
  qed
qed

lemma execute_loop_foldl:
  "numTasks \<le> length tasks \<Longrightarrow>
   execute_loop env tasks numTasks taskNum s =
     Inr (foldl (execute_round env tasks) s [taskNum..<numTasks])"
proof (induction env tasks numTasks taskNum s rule: execute_loop.induct)
  case (1 env tasks numTasks taskNum s)
  show ?case
  proof (cases "taskNum < numTasks")
    case True
    with "1.prems" have inrange: "taskNum < length tasks" by simp
    from True have upt: "[taskNum..<numTasks] = taskNum # [Suc taskNum..<numTasks]"
      by (simp add: upt_rec)
    have "execute_loop env tasks numTasks taskNum s =
            execute_loop env tasks numTasks (Suc taskNum) (execute_round env tasks s taskNum)"
      using True inrange by (subst execute_loop.simps) simp
    also have "\<dots> = Inr (foldl (execute_round env tasks) (execute_round env tasks s taskNum)
                           [Suc taskNum..<numTasks])"
      by (rule "1.IH" [OF True inrange "1.prems"])
    finally show ?thesis by (simp add: upt)
  next
    case False
    then show ?thesis by (subst execute_loop.simps) simp
  qed
qed

lemma trace_emit: "trace (emit e s) = trace s @ [e]"
  by (simp add: emit_def)

lemma trace_prepare_task:
  "trace (prepare_task env index task s) = trace s @ [PrepareCall task index]"
  by (simp add: prepare_task_def Let_def trace_emit)

lemma trace_execute_task: "trace (execute_task env task s) = trace s @ [ExecuteCall task]"
  by (simp add: execute_task_def Let_def trace_emit)

lemma trace_prepare_rounds:
  "trace (foldl (prepare_round env index tasks) s is) =
     trace s @ concat (map (\<lambda>i. [ElementRead i, PrepareCall (tasks ! i) index]) is)"
  by (induction "is" arbitrary: s) (simp_all add: prepare_round_def trace_prepare_task trace_emit)

lemma trace_execute_rounds:
  "trace (foldl (execute_round env tasks) s is) =
     trace s @ concat (map (\<lambda>i. [ElementRead i, ExecuteCall (tasks ! i)]) is)"
  by (induction "is" arbitrary: s) (simp_all add: execute_round_def trace_execute_task trace_emit)

lemma trace_commit_phase:
  "trace (commit_phase env index s) =
     trace s @ [CommitResourcesCall (GetRenderDelegate env index (world s))
                  (GetChangeTracker env index (world s))]"
  by (simp add: commit_phase_def Let_def trace_emit)

lemma trace_sync_phase:
  "trace (snd (sync_phase env index tasks s)) = trace s @ [SyncAllCall index tasks (taskContext s)]"
  by (simp add: sync_phase_def Let_def trace_emit)

lemma trace_seed: "trace (seed_drivers env index s) = trace s"
  by (simp add: seed_drivers_def)

lemma fst_sync_phase:
  "fst (sync_phase env index tasks (seed_drivers env index s)) = tasks_after_sync env index tasks s"
  by (simp add: sync_phase_def tasks_after_sync_def seeded_context_def seed_drivers_def emit_def
        Let_def)

text \<open>
  With non-null arguments the primary \<open>Execute\<close> returns, with the vector as \<open>SyncAll\<close>
  left it and the state after the Execute loop.
\<close>

lemma Execute_returns:
  "Execute env (Some index) (Some tasks) s =
     Inr (Some (tasks_after_sync env index tasks s), executed_state env index tasks s)"
  by (simp add: Execute_def Let_def fst_sync_phase prepare_loop_foldl execute_loop_foldl
        executed_state_def committed_state_def prepared_state_def synced_state_def)

lemma trace_executed_state:
  "trace (executed_state env index tasks s) =
     trace s @
     [SyncAllCall index tasks (seeded_context env index s),
      SizeRead (length (tasks_after_sync env index tasks s))] @
     prepare_events index (tasks_after_sync env index tasks s) @
     [commit_call env index tasks s] @
     execute_events (tasks_after_sync env index tasks s)"
proof -
  have t2: "trace (synced_state env index tasks s) =
      trace s @ [SyncAllCall index tasks (seeded_context env index s),
                 SizeRead (length (tasks_after_sync env index tasks s))]"
    by (simp add: synced_state_def trace_emit trace_sync_phase trace_seed seeded_context_def)
  have t3: "trace (prepared_state env index tasks s) =
      trace (synced_state env index tasks s) @ prepare_events index (tasks_after_sync env index tasks s)"
    by (simp add: prepared_state_def trace_prepare_rounds prepare_events_def)
  have t4: "trace (committed_state env index tasks s) =
      trace (prepared_state env index tasks s) @ [commit_call env index tasks s]"
    by (simp add: committed_state_def trace_commit_phase commit_call_def)
  have t5: "trace (executed_state env index tasks s) =
      trace (committed_state env index tasks s) @ execute_events (tasks_after_sync env index tasks s)"
    by (simp add: executed_state_def trace_execute_rounds execute_events_def)
  show ?thesis by (simp add: t5 t4 t3 t2)
qed

lemma new_events_executed_state:
  "new_events s (executed_state env index tasks s) =
     [SyncAllCall index tasks (seeded_context env index s),
      SizeRead (length (tasks_after_sync env index tasks s))] @
     prepare_events index (tasks_after_sync env index tasks s) @
     [commit_call env index tasks s] @
     execute_events (tasks_after_sync env index tasks s)"
  by (simp add: new_events_def trace_executed_state)

subsection \<open>Projections of the events of a call\<close>


lemma phase_calls_append: "phase_calls (xs @ ys) = phase_calls xs @ phase_calls ys"
  by (simp add: phase_calls_def)



lemma prepared_events:
  "prepared (prepare_events index tasks) = tasks" "prepared (execute_events tasks) = []"
proof -
  have "prepared (concat (map (\<lambda>i. [ElementRead i, PrepareCall (tasks ! i) index]) is)) =
      map (\<lambda>i. tasks ! i) is" for "is"
    by (induction "is") (simp_all add: prepared_def)
  then show "prepared (prepare_events index tasks) = tasks"
    by (simp add: prepare_events_def map_nth)
  have "prepared (concat (map (\<lambda>i. [ElementRead i, ExecuteCall (tasks ! i)]) is)) = []" for "is"
    by (induction "is") (simp_all add: prepared_def)
  then show "prepared (execute_events tasks) = []" by (simp add: execute_events_def)
qed

lemma executed_events:
  "executed (prepare_events index tasks) = []" "executed (execute_events tasks) = tasks"
proof -
  have "executed (concat (map (\<lambda>i. [ElementRead i, ExecuteCall (tasks ! i)]) is)) =
      map (\<lambda>i. tasks ! i) is" for "is"
    by (induction "is") (simp_all add: executed_def)
  then show "executed (execute_events tasks) = tasks"
    by (simp add: execute_events_def map_nth)
  have "executed (concat (map (\<lambda>i. [ElementRead i, PrepareCall (tasks ! i) index]) is)) = []" for "is"
    by (induction "is") (simp_all add: executed_def)
  then show "executed (prepare_events index tasks) = []" by (simp add: prepare_events_def)
qed

lemma element_reads_events:
  "element_reads (prepare_events index tasks) = [0..<length tasks]"
  "element_reads (execute_events tasks) = [0..<length tasks]"
proof -
  have "element_reads (concat (map (\<lambda>i. [ElementRead i, PrepareCall (tasks ! i) index]) is)) = is"
    for "is" by (induction "is") (simp_all add: element_reads_def)
  then show "element_reads (prepare_events index tasks) = [0..<length tasks]"
    by (simp add: prepare_events_def)
  have "element_reads (concat (map (\<lambda>i. [ElementRead i, ExecuteCall (tasks ! i)]) is)) = is"
    for "is" by (induction "is") (simp_all add: element_reads_def)
  then show "element_reads (execute_events tasks) = [0..<length tasks]"
    by (simp add: execute_events_def)
qed

lemma size_reads_events:
  "size_reads (prepare_events index tasks) = []" "size_reads (execute_events tasks) = []"
proof -
  have "size_reads (concat (map (\<lambda>i. [ElementRead i, PrepareCall (tasks ! i) index]) is)) = []"
    for "is" by (induction "is") (simp_all add: size_reads_def)
  then show "size_reads (prepare_events index tasks) = []" by (simp add: prepare_events_def)
  have "size_reads (concat (map (\<lambda>i. [ElementRead i, ExecuteCall (tasks ! i)]) is)) = []"
    for "is" by (induction "is") (simp_all add: size_reads_def)
  then show "size_reads (execute_events tasks) = []" by (simp add: execute_events_def)
qed

lemma projections_Nil:
  "phase_calls [] = []" "prepared [] = []" "executed [] = []" "element_reads [] = []"
  "size_reads [] = []"
  by (simp_all add: phase_calls_def prepared_def executed_def element_reads_def size_reads_def)

lemma projections_Cons:
  "phase_calls (e # evs) = (if is_phase_call e then e # phase_calls evs else phase_calls evs)"
  "prepared (e # evs) = (case e of PrepareCall task index \<Rightarrow> [task] | _ \<Rightarrow> []) @ prepared evs"
  "executed (e # evs) = (case e of ExecuteCall task \<Rightarrow> [task] | _ \<Rightarrow> []) @ executed evs"
  "element_reads (e # evs) = (case e of ElementRead i \<Rightarrow> [i] | _ \<Rightarrow> []) @ element_reads evs"
  "size_reads (e # evs) = (case e of SizeRead n \<Rightarrow> [n] | _ \<Rightarrow> []) @ size_reads evs"
  by (simp_all add: phase_calls_def prepared_def executed_def element_reads_def size_reads_def)

lemma projections_append:
  "phase_calls (xs @ ys) = phase_calls xs @ phase_calls ys"
  "prepared (xs @ ys) = prepared xs @ prepared ys"
  "executed (xs @ ys) = executed xs @ executed ys"
  "element_reads (xs @ ys) = element_reads xs @ element_reads ys"
  "size_reads (xs @ ys) = size_reads xs @ size_reads ys"
  by (simp_all add: phase_calls_def prepared_def executed_def element_reads_def size_reads_def)

lemmas projections = projections_Nil projections_Cons projections_append

lemma seeded_context_drivers:
  "umap_find HdTokens_drivers (seeded_context env index s) =
     Some (VtDriverVector (GetDrivers env index (world s)))"
  by (simp add: seeded_context_def seed_drivers_def umap_find_subscript_assign)


subsection \<open>The task context and the world through the loops\<close>




lemma leaves_key_prepare_rounds:
  "leaves_key env k \<Longrightarrow>
   umap_find k (taskContext (foldl (prepare_round env index tasks) s is)) =
     umap_find k (taskContext s)"
  by (induction "is" arbitrary: s)
     (simp_all add: leaves_key_def prepare_round_def prepare_task_def emit_def Let_def)

lemma leaves_key_execute_rounds:
  "leaves_key env k \<Longrightarrow>
   umap_find k (taskContext (foldl (execute_round env tasks) s is)) =
     umap_find k (taskContext s)"
  by (induction "is" arbitrary: s)
     (simp_all add: leaves_key_def execute_round_def execute_task_def emit_def Let_def)

lemma leaves_key_executed_state:
  assumes "leaves_key env k"
  shows "umap_find k (taskContext (executed_state env index tasks s)) =
     umap_find k (seeded_context env index s)"
proof -
  have "umap_find k (taskContext (synced_state env index tasks s)) =
      umap_find k (seeded_context env index s)"
    using assms
    by (simp add: synced_state_def sync_phase_def emit_def Let_def seeded_context_def
          leaves_key_def)
  then show ?thesis
    by (simp add: executed_state_def committed_state_def prepared_state_def commit_phase_def
          emit_def Let_def leaves_key_execute_rounds [OF assms]
          leaves_key_prepare_rounds [OF assms])
qed

lemma keys_seeded_context:
  "keys (seeded_context env index s) =
     (if HdTokens_drivers \<in> set (keys (taskContext s)) then keys (taskContext s)
      else keys (taskContext s) @ [HdTokens_drivers])"
  by (simp add: seeded_context_def seed_drivers_def keys_subscript_assign)

section \<open>Lemmas on the resolution of paths\<close>

lemma resolve_paths_valid:
  "resolve_paths env (Some index) ps acc s =
     Inr (acc @ resolved_tasks env index (world s) ps,
          s\<lparr>trace := trace s @ resolve_events env index (world s) ps\<rparr>)"
proof (induction ps arbitrary: acc s)
  case Nil
  show ?case by (simp add: resolved_tasks_def resolve_events_def)
next
  case (Cons p ps)
  show ?case
  proof (cases "IsEmpty p")
    case True
    then show ?thesis
      by (simp add: Cons.IH resolved_tasks_def resolve_events_def resolves_def path_error_def
            TF_CODING_ERROR_def emit_def)
  next
    case False
    show ?thesis
    proof (cases "GetTask env index p (world s)")
      case None
      with False show ?thesis
        by (simp add: Cons.IH resolved_tasks_def resolve_events_def resolves_def path_error_def
              TF_CODING_ERROR_def emit_def)
    next
      case (Some task)
      with False show ?thesis
        by (simp add: Cons.IH resolved_tasks_def resolve_events_def resolves_def emit_def)
    qed
  qed
qed

lemma coding_errors_resolve_events:
  "coding_errors (resolve_events env index w ps) = path_errors env index w ps"
  by (induction ps)
     (simp_all add: coding_errors_def resolve_events_def path_errors_def resolves_def)

lemma get_task_calls_resolve_events:
  "get_task_calls (resolve_events env index w ps) = filter (\<lambda>p. \<not> IsEmpty p) ps"
  by (induction ps) (simp_all add: get_task_calls_def resolve_events_def)

lemma resolve_paths_null:
  "resolve_paths env None ps acc s =
     (if list_all IsEmpty ps
      then Inr (acc, s\<lparr>trace := trace s @
                  replicate (length ps) (CodingError ''Empty task path given to HdEngine::Execute()'')\<rparr>)
      else Inl NullDereference)"
proof (induction ps arbitrary: s)
  case Nil
  show ?case by simp
next
  case (Cons p ps)
  show ?case
    by (simp add: Cons.IH TF_CODING_ERROR_def emit_def replicate_app_Cons_same)
qed

section \<open>Unfolding the engine on concrete arguments\<close>

lemmas run_defs =
  tasks_after_sync_def Execute_def Execute_paths_def recording_def
  HdEngine_def seed_drivers_def seeded_context_def
  sync_phase_def subscript_assign_def subscript_def HdTokens_drivers_def emit_def
  prepare_loop.simps execute_loop.simps prepare_round_def execute_round_def
  prepare_task_def execute_task_def commit_phase_def Let_def IsEmpty_def TF_CODING_ERROR_def
  erase_def

section \<open>The task context accessors: claims\<close>

text \<open>
  C6. With a non-null out-pointer \<open>data\<close>: \<open>SetTaskContextData(k, v)\<close> followed by
  \<open>GetTaskContextData(k, data)\<close> returns true and stores \<open>v\<close> in \<open>*data\<close>; after any
  sequence of accessor calls on a new engine that never sets \<open>k\<close>, the get returns
  false and leaves \<open>*data\<close> as it was; so it does after \<open>RemoveTaskContextData(k)\<close>, and,
  for every key, after \<open>ClearTaskContextData()\<close>. A get changes nothing of the state.
\<close>

theorem blackboard_contract:
  "GetTaskContextData k (Some old) (SetTaskContextData k v s) =
     (True, Some v, SetTaskContextData k v s) \<and>
   ((\<forall>a\<in>set calls. \<not> sets_key k a) \<longrightarrow>
      GetTaskContextData k (Some old) (run_accessors calls (HdEngine w)) =
        (False, Some old, run_accessors calls (HdEngine w))) \<and>
   GetTaskContextData k (Some old) (RemoveTaskContextData k s) =
     (False, Some old, RemoveTaskContextData k s) \<and>
   GetTaskContextData k' (Some old) (ClearTaskContextData s) =
     (False, Some old, ClearTaskContextData s)"
proof -
  have set_get: "GetTaskContextData k (Some old) (SetTaskContextData k v s) =
      (True, Some v, SetTaskContextData k v s)"
    by (simp add: GetTaskContextData_eq taskContext_Set umap_find_subscript_assign)
  have never_set: "GetTaskContextData k (Some old) (run_accessors calls (HdEngine w)) =
      (False, Some old, run_accessors calls (HdEngine w))"
    if "\<forall>a\<in>set calls. \<not> sets_key k a"
  proof -
    have "umap_find k (taskContext (HdEngine w)) = None" by (simp add: HdEngine_def)
    from run_keeps_absent [OF this that] show ?thesis by (simp add: GetTaskContextData_eq)
  qed
  have removed: "GetTaskContextData k (Some old) (RemoveTaskContextData k s) =
      (False, Some old, RemoveTaskContextData k s)"
    by (simp add: GetTaskContextData_eq RemoveTaskContextData_def umap_find_erase)
  have cleared: "GetTaskContextData k' (Some old) (ClearTaskContextData s) =
      (False, Some old, ClearTaskContextData s)"
    by (simp add: GetTaskContextData_eq ClearTaskContextData_def clear_def)
  from set_get never_set removed cleared show ?thesis by blast
qed

text \<open>
  The first two parts at a concrete sequence of calls, none of which sets the key \<open>b\<close>.
\<close>

theorem blackboard_contract_witness:
  "list_all (\<lambda>a. \<not> sets_key ''b'' a)
     [CallSet ''a'' (VtInt 1), CallGet ''a'' (Some VtEmpty), CallRemove ''a'', CallClear] \<and>
   GetTaskContextData ''a'' (Some VtEmpty) (SetTaskContextData ''a'' (VtInt 1) (HdEngine ())) =
     (True, Some (VtInt 1), \<lparr>taskContext = [(''a'', VtInt 1)], trace = [], world = ()\<rparr>) \<and>
   GetTaskContextData ''b'' (Some VtEmpty)
       (run_accessors [CallSet ''a'' (VtInt 1), CallGet ''a'' (Some VtEmpty), CallRemove ''a'', CallClear]
          (HdEngine ())) =
     (False, Some VtEmpty, \<lparr>taskContext = [], trace = [], world = ()\<rparr>)"
  using blackboard_contract [of "''b''" VtEmpty "VtInt 1" "HdEngine ()"
      "[CallSet ''a'' (VtInt 1), CallGet ''a'' (Some VtEmpty), CallRemove ''a'', CallClear]" "()" "''b''"]
  by (simp add: GetTaskContextData_def SetTaskContextData_def emplace_def HdEngine_def
        run_accessors_def RemoveTaskContextData_def ClearTaskContextData_def clear_def erase_def)

text \<open>
  C7. No two entries of the task context have the same key: this holds of a new engine
  and after every sequence of accessor calls on it, and each of \<open>SetTaskContextData\<close>,
  \<open>GetTaskContextData\<close>, \<open>RemoveTaskContextData\<close>, \<open>ClearTaskContextData\<close> and the seeding of
  the drivers entry keeps it. \<open>SetTaskContextData(k, v)\<close> is an upsert: afterwards \<open>k\<close> has
  the value \<open>v\<close> and every other key the value it had; if \<open>k\<close> had an entry the entries
  keep their keys and places, otherwise one entry is added; no error is reported.
\<close>

theorem unique_keys_invariant:
  "unique_keys (taskContext (HdEngine w)) \<and>
   unique_keys (taskContext (run_accessors calls (HdEngine w))) \<and>
   (unique_keys (taskContext s) \<longrightarrow>
      unique_keys (taskContext (SetTaskContextData k v s)) \<and>
      unique_keys (taskContext (snd (snd (GetTaskContextData k data s)))) \<and>
      unique_keys (taskContext (RemoveTaskContextData k s)) \<and>
      unique_keys (taskContext (ClearTaskContextData s)) \<and>
      unique_keys (taskContext (seed_drivers env index s))) \<and>
   umap_find k (taskContext (SetTaskContextData k v s)) = Some v \<and>
   (k' \<noteq> k \<longrightarrow>
      umap_find k' (taskContext (SetTaskContextData k v s)) = umap_find k' (taskContext s)) \<and>
   (k \<in> set (keys (taskContext s)) \<longrightarrow>
      keys (taskContext (SetTaskContextData k v s)) = keys (taskContext s)) \<and>
   (k \<notin> set (keys (taskContext s)) \<longrightarrow>
      taskContext (SetTaskContextData k v s) = taskContext s @ [(k, v)]) \<and>
   trace (SetTaskContextData k v s) = trace s"
proof -
  have init: "unique_keys (taskContext (HdEngine w))"
    by (simp add: HdEngine_def unique_keys_def keys_def)
  have reach: "unique_keys (taskContext (run_accessors calls (HdEngine w)))"
    by (rule run_unique_keys [OF init])
  have pres: "unique_keys (taskContext (SetTaskContextData k v s)) \<and>
      unique_keys (taskContext (snd (snd (GetTaskContextData k data s)))) \<and>
      unique_keys (taskContext (RemoveTaskContextData k s)) \<and>
      unique_keys (taskContext (ClearTaskContextData s)) \<and>
      unique_keys (taskContext (seed_drivers env index s))" if inv: "unique_keys (taskContext s)"
  proof -
    have "unique_keys (taskContext (call s (CallSet k v)))"
      "unique_keys (taskContext (call s (CallGet k data)))"
      "unique_keys (taskContext (call s (CallRemove k)))"
      "unique_keys (taskContext (call s CallClear))"
      by (rule call_unique_keys [OF inv])+
    moreover have "unique_keys (taskContext (seed_drivers env index s))"
      using inv by (simp add: seed_drivers_def unique_keys_subscript_assign)
    ultimately show ?thesis by simp
  qed
  have upsert: "umap_find k (taskContext (SetTaskContextData k v s)) = Some v"
    by (simp add: taskContext_Set umap_find_subscript_assign)
  have others: "umap_find k' (taskContext (SetTaskContextData k v s)) = umap_find k' (taskContext s)"
    if "k' \<noteq> k" using that by (simp add: taskContext_Set umap_find_subscript_assign)
  have inplace: "keys (taskContext (SetTaskContextData k v s)) = keys (taskContext s)"
    if "k \<in> set (keys (taskContext s))"
    using that by (simp add: taskContext_Set keys_subscript_assign)
  have fresh: "taskContext (SetTaskContextData k v s) = taskContext s @ [(k, v)]"
    if "k \<notin> set (keys (taskContext s))"
    using that by (simp add: taskContext_Set subscript_assign_eq)
  from init reach pres upsert others inplace fresh trace_Set [of k v s] show ?thesis by blast
qed

text \<open>
  An overwrite in place, the insertion of a new key, and the seeding of a context that
  has a stale drivers entry.
\<close>

theorem unique_keys_invariant_witness:
  "unique_keys [(''a'', VtInt 1), (''drivers'', VtEmpty)] \<and>
   ''b'' \<noteq> ''a'' \<and>
   ''a'' \<in> set (keys [(''a'', VtInt 1), (''drivers'', VtEmpty)]) \<and>
   ''c'' \<notin> set (keys [(''a'', VtInt 1), (''drivers'', VtEmpty)]) \<and>
   taskContext (SetTaskContextData ''a'' (VtInt 2)
      \<lparr>taskContext = [(''a'', VtInt 1), (''drivers'', VtEmpty)], trace = [], world = []\<rparr>) =
     [(''a'', VtInt 2), (''drivers'', VtEmpty)] \<and>
   taskContext (SetTaskContextData ''c'' (VtInt 3)
      \<lparr>taskContext = [(''a'', VtInt 1), (''drivers'', VtEmpty)], trace = [], world = []\<rparr>) =
     [(''a'', VtInt 1), (''drivers'', VtEmpty), (''c'', VtInt 3)] \<and>
   taskContext (seed_drivers recording 0
      \<lparr>taskContext = [(''a'', VtInt 1), (''drivers'', VtEmpty)], trace = [], world = []\<rparr>) =
     [(''a'', VtInt 1), (''drivers'', VtDriverVector [42])] \<and>
   unique_keys (taskContext (seed_drivers recording 0
      \<lparr>taskContext = [(''a'', VtInt 1), (''drivers'', VtEmpty)], trace = [], world = []\<rparr>))"
  using
    unique_keys_invariant [of "[]" "[]"
      "\<lparr>taskContext = [(''a'', VtInt 1), (''drivers'', VtEmpty)], trace = [], world = []\<rparr>"
      "''a''" "VtInt 2" None recording 0 "''b''"]
    unique_keys_invariant [of "[]" "[]"
      "\<lparr>taskContext = [(''a'', VtInt 1), (''drivers'', VtEmpty)], trace = [], world = []\<rparr>"
      "''c''" "VtInt 3" None recording 0 "''b''"]
  by (simp add: unique_keys_def keys_def SetTaskContextData_def emplace_def seed_drivers_def
        subscript_assign_def subscript_def HdTokens_drivers_def recording_def)

section \<open>The primary \<open>Execute\<close>: claims\<close>

text \<open>
  C3. Called with a null index or a null task vector, the primary \<open>Execute\<close> returns
  without a fault; the one event it adds to the trace is the usage error, so it makes
  no call to a collaborator; the task context, the world and the caller's vector are
  as they were.
\<close>

theorem Execute_null_arguments:
  "index = None \<or> tasks = None \<Longrightarrow>
   Execute env index tasks s =
     Inr (tasks, s\<lparr>trace := trace s @ [CodingError ''Passed nullptr to HdEngine::Execute()'']\<rparr>) \<and>
   (\<exists>s'. Execute env index tasks s = Inr (tasks, s') \<and>
      new_events s s' = [CodingError ''Passed nullptr to HdEngine::Execute()''] \<and>
      phase_calls (new_events s s') = [] \<and>
      taskContext s' = taskContext s \<and> world s' = world s)"
  by (auto simp: Execute_def TF_CODING_ERROR_def emit_def new_events_def phase_calls_def
        split: option.split)

text \<open>
  A null index with a vector of two tasks, and an index with a null vector, on an engine
  whose context has an entry.
\<close>

theorem Execute_null_arguments_witness:
  "((None :: HdRenderIndex option) = None \<or> Some [1, 2] = (None :: HdTaskSharedPtrVector option)) \<and>
   (Some 0 = (None :: HdRenderIndex option) \<or> (None :: HdTaskSharedPtrVector option) = None) \<and>
   Execute recording None (Some [1, 2]) \<lparr>taskContext = [(''a'', VtInt 1)], trace = [], world = []\<rparr> =
     Inr (Some [1, 2], \<lparr>taskContext = [(''a'', VtInt 1)],
            trace = [CodingError ''Passed nullptr to HdEngine::Execute()''], world = []\<rparr>) \<and>
   Execute recording (Some 0) None \<lparr>taskContext = [(''a'', VtInt 1)], trace = [], world = []\<rparr> =
     Inr (None, \<lparr>taskContext = [(''a'', VtInt 1)],
            trace = [CodingError ''Passed nullptr to HdEngine::Execute()''], world = []\<rparr>)"
  using
    Execute_null_arguments [of None "Some [1, 2]" recording
      "\<lparr>taskContext = [(''a'', VtInt 1)], trace = [], world = []\<rparr>"]
    Execute_null_arguments [of "Some 0" None recording
      "\<lparr>taskContext = [(''a'', VtInt 1)], trace = [], world = []\<rparr>"]
  by simp








text \<open>
  C5, as amended. With a non-null index and a non-null task vector, the first call the
  primary \<open>Execute\<close> makes after the null check is \<open>SyncAll\<close>, and the task context
  handed to it has under the drivers key the driver vector of the scene index,
  whatever was stored under that key before; the keys of the entries are those of
  before, with the drivers key added only if it was missing, every other key has the
  value it had, and a context with unique keys has exactly one drivers entry. When the
  call has returned the entry still holds that driver vector provided \<open>SyncAll\<close>,
  \<open>Prepare\<close> and the task \<open>Execute\<close> leave the entry under the drivers key as they found it.
\<close>

theorem drivers_entry_seeded:
  "\<exists>s' rest.
      Execute env (Some index) (Some tasks) s =
        Inr (Some (tasks_after_sync env index tasks s), s') \<and>
      new_events s s' = SyncAllCall index tasks (seeded_context env index s) # rest \<and>
      umap_find HdTokens_drivers (seeded_context env index s) =
        Some (VtDriverVector (GetDrivers env index (world s))) \<and>
      keys (seeded_context env index s) =
        (if HdTokens_drivers \<in> set (keys (taskContext s)) then keys (taskContext s)
         else keys (taskContext s) @ [HdTokens_drivers]) \<and>
      (\<forall>k. k \<noteq> HdTokens_drivers \<longrightarrow>
         umap_find k (seeded_context env index s) = umap_find k (taskContext s)) \<and>
      (unique_keys (taskContext s) \<longrightarrow>
         count_key HdTokens_drivers (seeded_context env index s) = 1) \<and>
      (leaves_key env HdTokens_drivers \<longrightarrow>
         umap_find HdTokens_drivers (taskContext s') =
           Some (VtDriverVector (GetDrivers env index (world s))))"
proof -
  let ?s' = "executed_state env index tasks s"
  let ?ts = "tasks_after_sync env index tasks s"
  let ?rest = "SizeRead (length ?ts) # prepare_events index ?ts @
      [commit_call env index tasks s] @ execute_events ?ts"
  have ret: "Execute env (Some index) (Some tasks) s = Inr (Some ?ts, ?s')"
    by (rule Execute_returns)
  have ev: "new_events s ?s' = SyncAllCall index tasks (seeded_context env index s) # ?rest"
    by (simp add: new_events_executed_state)
  have others: "\<forall>k. k \<noteq> HdTokens_drivers \<longrightarrow>
      umap_find k (seeded_context env index s) = umap_find k (taskContext s)"
    by (simp add: seeded_context_def seed_drivers_def umap_find_subscript_assign)
  have once: "count_key HdTokens_drivers (seeded_context env index s) = 1"
    if "unique_keys (taskContext s)"
  proof -
    from that have "unique_keys (seeded_context env index s)"
      by (simp add: seeded_context_def seed_drivers_def unique_keys_subscript_assign)
    then show ?thesis by (simp add: count_key_unique keys_seeded_context)
  qed
  have after: "umap_find HdTokens_drivers (taskContext ?s') =
      Some (VtDriverVector (GetDrivers env index (world s)))"
    if "leaves_key env HdTokens_drivers"
    by (simp add: leaves_key_executed_state [OF that] seeded_context_drivers)
  from ret ev seeded_context_drivers [of env index s] keys_seeded_context [of env index s]
    others once after
  show ?thesis by blast
qed

text \<open>A stale drivers entry is replaced, in place, and is still there after the call.\<close>

theorem drivers_entry_seeded_witness:
  "leaves_key recording HdTokens_drivers \<and>
   ''last'' \<noteq> HdTokens_drivers \<and>
   unique_keys [(''drivers'', VtInt 7), (''last'', VtInt 0)] \<and>
   seeded_context recording 0
       \<lparr>taskContext = [(''drivers'', VtInt 7), (''last'', VtInt 0)], trace = [], world = []\<rparr> =
     [(''drivers'', VtDriverVector [42]), (''last'', VtInt 0)] \<and>
   drivers_after (Execute recording (Some 0) (Some [1, 2])
       \<lparr>taskContext = [(''drivers'', VtInt 7), (''last'', VtInt 0)], trace = [], world = []\<rparr>) =
     Inr (Some (VtDriverVector [42]))"
proof -
  have l: "leaves_key recording HdTokens_drivers"
    by (simp add: leaves_key_def recording_def umap_find_subscript_assign HdTokens_drivers_def)
  from l drivers_entry_seeded [of recording 0 "[1, 2]"
      "\<lparr>taskContext = [(''drivers'', VtInt 7), (''last'', VtInt 0)], trace = [], world = []\<rparr>"]
  show ?thesis
    by (simp add: run_defs drivers_after_def unique_keys_def keys_def)
qed

text \<open>
  C5, as stated, fails: the task context is handed to the tasks by non-const pointer,
  and with tasks whose \<open>Prepare\<close> erases the drivers entry there is no drivers entry
  when the call has returned.
\<close>

theorem drivers_entry_after_call_counterexample:
  "drivers_after (Execute erasing (Some 0) (Some [1, 2]) (HdEngine [])) = Inr None \<and>
   drivers_after (Execute erasing (Some 0) (Some [1, 2]) (HdEngine [])) \<noteq>
     Inr (Some (VtDriverVector (GetDrivers erasing 0 [])))"
  by (simp add: run_defs erasing_def drivers_after_def)

text \<open>
  C8. With a non-null index and a non-null task vector, the vector when the primary
  \<open>Execute\<close> has returned is the vector as \<open>SyncAll\<close> left it: the engine itself writes
  nothing to it, so a vector that \<open>SyncAll\<close> leaves alone is returned as passed in. The
  engine reads the elements in one pass before \<open>CommitResources\<close> (the Prepare phase)
  and one pass after it (the Execute phase), each pass reading the positions from 0 to
  the last once.
\<close>

theorem task_vector_not_mutated:
  "\<exists>s' before after renderDelegate tracker.
      Execute env (Some index) (Some tasks) s =
        Inr (Some (tasks_after_sync env index tasks s), s') \<and>
      new_events s s' = before @ [CommitResourcesCall renderDelegate tracker] @ after \<and>
      element_reads before = [0..<length (tasks_after_sync env index tasks s)] \<and>
      element_reads after = [0..<length (tasks_after_sync env index tasks s)] \<and>
      (fst (SyncAll env index tasks (seeded_context env index s) (world s)) = tasks \<longrightarrow>
       Execute env (Some index) (Some tasks) s = Inr (Some tasks, s'))"
proof -
  let ?s' = "executed_state env index tasks s"
  let ?ts = "tasks_after_sync env index tasks s"
  let ?before = "[SyncAllCall index tasks (seeded_context env index s), SizeRead (length ?ts)] @
      prepare_events index ?ts"
  let ?d = "GetRenderDelegate env index (world (prepared_state env index tasks s))"
  let ?t = "GetChangeTracker env index (world (prepared_state env index tasks s))"
  have ret: "Execute env (Some index) (Some tasks) s = Inr (Some ?ts, ?s')"
    by (rule Execute_returns)
  have ev: "new_events s ?s' = ?before @ [CommitResourcesCall ?d ?t] @ execute_events ?ts"
    by (simp add: new_events_executed_state commit_call_def)
  have b: "element_reads ?before = [0..<length ?ts]"
    by (simp add: projections element_reads_events)
  have a: "element_reads (execute_events ?ts) = [0..<length ?ts]"
    by (simp add: element_reads_events)
  have same: "Execute env (Some index) (Some tasks) s = Inr (Some tasks, ?s')"
    if "fst (SyncAll env index tasks (seeded_context env index s) (world s)) = tasks"
  proof -
    from that have "?ts = tasks" by (simp add: tasks_after_sync_def)
    with ret show ?thesis by simp
  qed
  from ret ev b a same show ?thesis by blast
qed

text \<open>Collaborators whose \<open>SyncAll\<close> leaves the vector alone.\<close>

theorem task_vector_not_mutated_witness:
  "fst (SyncAll recording 0 [1, 2] (seeded_context recording 0 (HdEngine [])) (world (HdEngine []))) = [1, 2] \<and>
   Execute recording (Some 0) (Some [1, 2]) (HdEngine []) =
     Inr (Some [1, 2],
       \<lparr>taskContext = [(''drivers'', VtDriverVector [42]), (''last'', VtInt 2)],
        trace =
          [SyncAllCall 0 [1, 2] [(''drivers'', VtDriverVector [42])], SizeRead 2,
           ElementRead 0, PrepareCall 1 0, ElementRead 1, PrepareCall 2 0,
           CommitResourcesCall 5 6,
           ElementRead 0, ExecuteCall 1, ElementRead 1, ExecuteCall 2],
        world = [1, 2, 1000, 101, 102]\<rparr>)"
  using task_vector_not_mutated [of recording 0 "[1, 2]" "HdEngine []"]
  by (simp add: run_defs)

text \<open>
  C9. With a non-null index and a non-null task vector, the size of the vector is read
  once, as the next thing after the call of \<open>SyncAll\<close>, and nowhere later in the call; the
  size read is that of the vector as \<open>SyncAll\<close> left it, and it is the number of \<open>Prepare\<close>
  calls and the number of task \<open>Execute\<close> calls.
\<close>

theorem size_read_once_after_sync:
  "\<exists>s' rest.
      Execute env (Some index) (Some tasks) s =
        Inr (Some (tasks_after_sync env index tasks s), s') \<and>
      new_events s s' =
        SyncAllCall index tasks (seeded_context env index s) #
        SizeRead (length (tasks_after_sync env index tasks s)) # rest \<and>
      size_reads rest = [] \<and>
      size_reads (new_events s s') = [length (tasks_after_sync env index tasks s)] \<and>
      length (prepared (new_events s s')) = length (tasks_after_sync env index tasks s) \<and>
      length (executed (new_events s s')) = length (tasks_after_sync env index tasks s) \<and>
      tasks_after_sync env index tasks s =
        fst (SyncAll env index tasks (seeded_context env index s) (world s))"
proof -
  let ?s' = "executed_state env index tasks s"
  let ?ts = "tasks_after_sync env index tasks s"
  let ?rest = "prepare_events index ?ts @ [commit_call env index tasks s] @ execute_events ?ts"
  have ret: "Execute env (Some index) (Some tasks) s = Inr (Some ?ts, ?s')"
    by (rule Execute_returns)
  have ev: "new_events s ?s' =
      SyncAllCall index tasks (seeded_context env index s) # SizeRead (length ?ts) # ?rest"
    by (simp add: new_events_executed_state)
  have r: "size_reads ?rest = []"
    by (simp add: projections size_reads_events commit_call_def)
  have sr: "size_reads (new_events s ?s') = [length ?ts]"
    by (simp add: new_events_executed_state projections size_reads_events commit_call_def)
  have p: "length (prepared (new_events s ?s')) = length ?ts"
    by (simp add: new_events_executed_state projections prepared_events commit_call_def)
  have e: "length (executed (new_events s ?s')) = length ?ts"
    by (simp add: new_events_executed_state projections executed_events commit_call_def)
  have ts: "?ts = fst (SyncAll env index tasks (seeded_context env index s) (world s))"
    by (simp add: tasks_after_sync_def)
  from ret ev r sr p e ts show ?thesis by blast
qed

text \<open>A \<open>SyncAll\<close> that drops the last of three tasks: both loops run over two.\<close>

theorem size_read_once_after_sync_witness:
  "tasks_after_sync shrinking 0 [1, 2, 3] (HdEngine []) = [1, 2] \<and>
   Execute shrinking (Some 0) (Some [1, 2, 3]) (HdEngine []) =
     Inr (Some [1, 2],
       \<lparr>taskContext = [(''drivers'', VtDriverVector [42]), (''last'', VtInt 2)],
        trace =
          [SyncAllCall 0 [1, 2, 3] [(''drivers'', VtDriverVector [42])], SizeRead 2,
           ElementRead 0, PrepareCall 1 0, ElementRead 1, PrepareCall 2 0,
           CommitResourcesCall 5 6,
           ElementRead 0, ExecuteCall 1, ElementRead 1, ExecuteCall 2],
        world = [1, 2, 1000, 101, 102]\<rparr>)"
  using size_read_once_after_sync [of shrinking 0 "[1, 2, 3]" "HdEngine []"]
  by (simp add: run_defs shrinking_def)

section \<open>The path overload of \<open>Execute\<close>: claims\<close>

text \<open>
  C4. With a non-null index, the loop over the paths returns the tasks of the paths
  that resolve, in the order of those paths, built from an empty vector; it reports one
  usage error for each path that does not resolve (empty, or with no task in the scene
  index), in the order of those paths; it makes no phase call and changes neither the
  task context nor the world. The overload then calls the primary \<open>Execute\<close> with that
  vector and returns what it returns. If no path resolves, the primary \<open>Execute\<close> is
  called with the empty vector.
\<close>

theorem Execute_paths_resolution:
  "\<exists>s1 s2.
      resolve_paths env (Some index) taskPaths [] s =
        Inr (resolved_tasks env index (world s) taskPaths, s1) \<and>
      coding_errors (new_events s s1) = path_errors env index (world s) taskPaths \<and>
      length (resolved_tasks env index (world s) taskPaths) +
        length (path_errors env index (world s) taskPaths) = length taskPaths \<and>
      phase_calls (new_events s s1) = [] \<and>
      taskContext s1 = taskContext s \<and> world s1 = world s \<and>
      Execute env (Some index) (Some (resolved_tasks env index (world s) taskPaths)) s1 =
        Inr (Some (tasks_after_sync env index (resolved_tasks env index (world s) taskPaths) s1), s2) \<and>
      Execute_paths env (Some index) taskPaths s = Inr s2 \<and>
      ((\<forall>p\<in>set taskPaths. \<not> resolves env index (world s) p) \<longrightarrow>
         resolved_tasks env index (world s) taskPaths = [] \<and>
         length (path_errors env index (world s) taskPaths) = length taskPaths \<and>
         Execute env (Some index) (Some []) s1 =
           Inr (Some (tasks_after_sync env index [] s1), s2))"
proof -
  let ?ts = "resolved_tasks env index (world s) taskPaths"
  let ?s1 = "s\<lparr>trace := trace s @ resolve_events env index (world s) taskPaths\<rparr>"
  let ?s2 = "executed_state env index ?ts ?s1"
  have r: "resolve_paths env (Some index) taskPaths [] s = Inr (?ts, ?s1)"
    by (simp add: resolve_paths_valid)
  have ce: "coding_errors (new_events s ?s1) = path_errors env index (world s) taskPaths"
    by (simp add: new_events_def coding_errors_resolve_events)
  have len: "length ?ts + length (path_errors env index (world s) taskPaths) = length taskPaths"
    by (simp add: resolved_tasks_def path_errors_def sum_length_filter_compl)
  have pc: "phase_calls (new_events s ?s1) = []"
    by (induction taskPaths) (simp_all add: new_events_def resolve_events_def phase_calls_def)
  have ex: "Execute env (Some index) (Some ?ts) ?s1 =
      Inr (Some (tasks_after_sync env index ?ts ?s1), ?s2)"
    by (rule Execute_returns)
  have ep: "Execute_paths env (Some index) taskPaths s = Inr ?s2"
    by (simp add: Execute_paths_def r ex)
  have none: "?ts = []" if "\<forall>p\<in>set taskPaths. \<not> resolves env index (world s) p"
    using that by (simp add: resolved_tasks_def)
  have all: "length (path_errors env index (world s) taskPaths) = length taskPaths"
    if "\<forall>p\<in>set taskPaths. \<not> resolves env index (world s) p"
    using that by (simp add: path_errors_def)
  have ex0: "Execute env (Some index) (Some []) ?s1 =
      Inr (Some (tasks_after_sync env index [] ?s1), ?s2)"
    if "\<forall>p\<in>set taskPaths. \<not> resolves env index (world s) p"
    using ex none [OF that] by simp
  have "taskContext ?s1 = taskContext s" "world ?s1 = world s" by simp_all
  with r ce len pc ex ep none all ex0 show ?thesis
    by (intro exI [of _ ?s1] exI [of _ ?s2]) blast
qed

text \<open>
  The paths empty, \<open>/A\<close>, \<open>/missing\<close>, \<open>/B\<close> give the tasks 1 and 2 and two usage errors;
  the paths empty, \<open>/missing\<close> give a call of the primary \<open>Execute\<close> with no task.
\<close>

theorem Execute_paths_resolution_witness:
  "list_all (\<lambda>p. \<not> resolves recording 0 [] p) ['''', ''/missing''] \<and>
   resolved_tasks recording 0 [] ['''', ''/A'', ''/missing'', ''/B''] = [1, 2] \<and>
   path_errors recording 0 [] ['''', ''/A'', ''/missing'', ''/B''] =
     [''Empty task path given to HdEngine::Execute()'',
      ''No task at /missing in render index in HdEngine::Execute()''] \<and>
   Execute_paths recording (Some 0) ['''', ''/A'', ''/missing'', ''/B''] (HdEngine []) =
     Inr \<lparr>taskContext = [(''drivers'', VtDriverVector [42]), (''last'', VtInt 2)],
          trace =
            [CodingError ''Empty task path given to HdEngine::Execute()'',
             GetTaskCall 0 ''/A'', GetTaskCall 0 ''/missing'',
             CodingError ''No task at /missing in render index in HdEngine::Execute()'',
             GetTaskCall 0 ''/B'',
             SyncAllCall 0 [1, 2] [(''drivers'', VtDriverVector [42])], SizeRead 2,
             ElementRead 0, PrepareCall 1 0, ElementRead 1, PrepareCall 2 0,
             CommitResourcesCall 5 6,
             ElementRead 0, ExecuteCall 1, ElementRead 1, ExecuteCall 2],
          world = [1, 2, 1000, 101, 102]\<rparr> \<and>
   Execute_paths recording (Some 0) ['''', ''/missing''] (HdEngine []) =
     Inr \<lparr>taskContext = [(''drivers'', VtDriverVector [42])],
          trace =
            [CodingError ''Empty task path given to HdEngine::Execute()'',
             GetTaskCall 0 ''/missing'',
             CodingError ''No task at /missing in render index in HdEngine::Execute()'',
             SyncAllCall 0 [] [(''drivers'', VtDriverVector [42])], SizeRead 0,
             CommitResourcesCall 5 6],
          world = [1000]\<rparr>"
  using Execute_paths_resolution [of recording 0 "['''', ''/A'', ''/missing'', ''/B'']" "HdEngine []"]
    Execute_paths_resolution [of recording 0 "['''', ''/missing'']" "HdEngine []"]
  by (simp add: run_defs resolves_def resolved_tasks_def path_errors_def path_error_def)

text \<open>
  C10. The path overload does not test the index. With a null index it returns, having
  reported one usage error for each path and then the usage error of the primary
  \<open>Execute\<close>, if every path is empty (or there is none); if some path is not empty, it
  calls \<open>GetTask\<close> through the null index. With a non-null index \<open>GetTask\<close> is called for
  every path that is not empty, in order.
\<close>

theorem Execute_paths_null_index:
  "((\<forall>p\<in>set taskPaths. IsEmpty p) \<longrightarrow>
      Execute_paths env None taskPaths s =
        Inr (s\<lparr>trace := trace s @
               replicate (length taskPaths)
                 (CodingError ''Empty task path given to HdEngine::Execute()'') @
               [CodingError ''Passed nullptr to HdEngine::Execute()'']\<rparr>)) \<and>
   ((\<exists>p\<in>set taskPaths. \<not> IsEmpty p) \<longrightarrow>
      Execute_paths env None taskPaths s = Inl NullDereference) \<and>
   (\<exists>tasks s1. resolve_paths env (Some index) taskPaths [] s = Inr (tasks, s1) \<and>
      get_task_calls (new_events s s1) = filter (\<lambda>p. \<not> IsEmpty p) taskPaths)"
proof -
  have a: "Execute_paths env None taskPaths s =
      Inr (s\<lparr>trace := trace s @
             replicate (length taskPaths)
               (CodingError ''Empty task path given to HdEngine::Execute()'') @
             [CodingError ''Passed nullptr to HdEngine::Execute()'']\<rparr>)"
    if "\<forall>p\<in>set taskPaths. IsEmpty p"
  proof -
    from that have "list_all IsEmpty taskPaths" by (simp add: list_all_iff)
    then show ?thesis
      by (simp add: Execute_paths_def resolve_paths_null Execute_def TF_CODING_ERROR_def emit_def)
  qed
  have b: "Execute_paths env None taskPaths s = Inl NullDereference"
    if "\<exists>p\<in>set taskPaths. \<not> IsEmpty p"
  proof -
    from that have "\<not> list_all IsEmpty taskPaths" by (simp add: list_all_iff)
    then show ?thesis by (simp add: Execute_paths_def resolve_paths_null)
  qed
  have c: "\<exists>tasks s1. resolve_paths env (Some index) taskPaths [] s = Inr (tasks, s1) \<and>
      get_task_calls (new_events s s1) = filter (\<lambda>p. \<not> IsEmpty p) taskPaths"
    by (simp add: resolve_paths_valid new_events_def get_task_calls_resolve_events)
  from a b c show ?thesis by blast
qed

text \<open>Two empty paths, no path, and an empty path followed by \<open>/A\<close>, with a null index.\<close>

theorem Execute_paths_null_index_witness:
  "list_all IsEmpty ['''', ''''] \<and> list_ex (\<lambda>p. \<not> IsEmpty p) ['''', ''/A''] \<and>
   Execute_paths recording None ['''', ''''] (HdEngine []) =
     Inr \<lparr>taskContext = [],
          trace = [CodingError ''Empty task path given to HdEngine::Execute()'',
                   CodingError ''Empty task path given to HdEngine::Execute()'',
                   CodingError ''Passed nullptr to HdEngine::Execute()''],
          world = []\<rparr> \<and>
   Execute_paths recording None [] (HdEngine []) =
     Inr \<lparr>taskContext = [],
          trace = [CodingError ''Passed nullptr to HdEngine::Execute()''],
          world = []\<rparr> \<and>
   Execute_paths recording None ['''', ''/A''] (HdEngine []) = Inl NullDereference"
  using Execute_paths_null_index [of "['''', '''']" recording "HdEngine []" 0]
    Execute_paths_null_index [of "['''', ''/A'']" recording "HdEngine []" 0]
  by (simp add: run_defs)

end
